theory Spec2Isabelle
  imports Main
begin

section \<open>Data model of \<^verbatim>\<open>20250907000000_final_schema_reset.sql\<close>\<close>

text \<open>
  The authorization core of the repository lives in the stored procedures of the schema
  migrations. The embedding follows the last migration,
  \<^verbatim>\<open>supabase/migrations/20250907000000_final_schema_reset.sql\<close>, which drops and
  re-creates every table and function. A table is the list of its rows, a row is a record
  with the table's columns, a nullable SQL value is an \<open>option\<close> (\<open>None\<close> is NULL).
  A \<^verbatim>\<open>uuid\<close> is a natural number, a \<^verbatim>\<open>timestamp\<close> too.
\<close>

type_synonym uuid = nat
type_synonym timestamp = nat

datatype user_role = admin | editor | viewer

datatype invitation_status = pending | accepted | declined

record organization =
  o_id :: uuid
  o_created_at :: timestamp
  o_updated_at :: timestamp
  o_name :: string
  o_description :: "string option"
  o_created_by :: "uuid option"

record organization_member =
  om_id :: uuid
  om_created_at :: timestamp
  om_user_id :: uuid
  om_organization_id :: uuid
  om_role :: user_role

record invitation =
  inv_id :: uuid
  inv_created_at :: timestamp
  inv_updated_at :: timestamp
  inv_organization_id :: uuid
  inv_invited_by :: uuid
  inv_invitee_email :: string
  inv_role :: user_role
  inv_status :: invitation_status

text \<open>
  \<^verbatim>\<open>auth.users\<close> belongs to the authentication service and is declared nowhere in
  the repository; the procedures read its columns \<^verbatim>\<open>id\<close> and \<^verbatim>\<open>email\<close> only, so
  it is carried as a list of (id, email) pairs whose email may be NULL.
\<close>

record database =
  auth_users :: "(uuid \<times> string option) list"
  organizations :: "organization list"
  organization_members :: "organization_member list"
  invitations :: "invitation list"

text \<open>
  PL/pgSQL's setting \<^verbatim>\<open>plpgsql.variable_conflict\<close>: what a name in an SQL statement
  of a function means when it is both a variable of the function and a column of a table
  of the statement. The values are \<^verbatim>\<open>error\<close> (the statement is rejected),
  \<^verbatim>\<open>use_variable\<close> and \<^verbatim>\<open>use_column\<close>. The default is \<^verbatim>\<open>error\<close>; no
  migration sets it and no function carries a \<^verbatim>\<open>#variable_conflict\<close> line.
\<close>

datatype variable_conflict = conflict_error | use_variable | use_column

text \<open>
  What the database session supplies to a call: \<^verbatim>\<open>auth.uid()\<close> (NULL for a caller
  that is not signed in), \<^verbatim>\<open>now()\<close> and the setting above.
\<close>

record session =
  auth_uid :: "uuid option"
  now :: timestamp
  variable_conflict :: variable_conflict

text \<open>
  Every way a procedure aborts. The first seven are the \<^verbatim>\<open>RAISE EXCEPTION\<close>
  statements of the migrations, named after their messages; the next three are the
  violations of the constraints that the \<^verbatim>\<open>CREATE TABLE\<close> statements declare, with the
  name of the constraint; the last is the engine's error 42702, "column reference is
  ambiguous", with the name of the column.
\<close>

datatype error =
    Only_admins_can_invite_new_members
  | Invitation_not_found_or_already_actioned
  | You_are_not_authorized_to_accept_this_invitation
  | You_are_not_authorized_to_decline_this_invitation
  | Only_admins_can_change_roles
  | Only_admins_can_remove_members
  | You_cannot_remove_yourself_as_you_are_the_last_admin
  | Not_null_violation string
  | Unique_violation string
  | Foreign_key_violation string
  | Ambiguous_column string

text \<open>
  The failure kinds of the specification's taxonomy, and the kind each abort of the code
  falls under: a failed authorization check is \<open>Forbidden\<close>, an invitation that is absent
  or already actioned is \<open>NotFound\<close>, the refusal to remove the last admin is
  \<open>LastAdminError\<close>, a second membership of one principal in one organization is
  \<open>DuplicateMembership\<close>. The engine's ambiguity error is none of these.
\<close>

datatype failure_kind =
  Forbidden | NotFound | LastAdminError | DuplicateMembership | ConstraintViolation | InternalError

fun kind_of :: "error \<Rightarrow> failure_kind" where
  "kind_of Only_admins_can_invite_new_members = Forbidden"
| "kind_of Invitation_not_found_or_already_actioned = NotFound"
| "kind_of You_are_not_authorized_to_accept_this_invitation = Forbidden"
| "kind_of You_are_not_authorized_to_decline_this_invitation = Forbidden"
| "kind_of Only_admins_can_change_roles = Forbidden"
| "kind_of Only_admins_can_remove_members = Forbidden"
| "kind_of You_cannot_remove_yourself_as_you_are_the_last_admin = LastAdminError"
| "kind_of (Not_null_violation c) = ConstraintViolation"
| "kind_of (Unique_violation c) =
     (if c = ''organization_members_user_id_organization_id_key'' then DuplicateMembership
      else ConstraintViolation)"
| "kind_of (Foreign_key_violation c) = ConstraintViolation"
| "kind_of (Ambiguous_column c) = InternalError"

definition fails_with :: "error + 'a \<Rightarrow> failure_kind \<Rightarrow> bool" where
  "fails_with r k = (case r of Inl e \<Rightarrow> kind_of e = k | Inr v \<Rightarrow> False)"

text \<open>
  A procedure is a function from the database to an error or a result and the database
  it leaves. The remote call runs it in one transaction: an abort rolls every write of the
  procedure back, so the caller sees the database as it was.
\<close>

type_synonym 'a procedure = "database \<Rightarrow> error + ('a \<times> database)"

definition rpc :: "'a procedure \<Rightarrow> database \<Rightarrow> (error + 'a) \<times> database" where
  "rpc p db = (case p db of Inl e \<Rightarrow> (Inl e, db) | Inr (r, db') \<Rightarrow> (Inr r, db'))"

section \<open>The authorization predicate\<close>

text \<open>
  \<^verbatim>\<open>CASE x WHEN 'admin' THEN 3 WHEN 'editor' THEN 2 WHEN 'viewer' THEN 1 ELSE 0 END\<close>;
  a NULL operand matches no \<^verbatim>\<open>WHEN\<close> and takes the \<^verbatim>\<open>ELSE\<close>.
\<close>

fun role_level :: "user_role option \<Rightarrow> int" where
  "role_level (Some admin) = 3"
| "role_level (Some editor) = 2"
| "role_level (Some viewer) = 1"
| "role_level None = 0"

definition coalesce :: "'a option \<Rightarrow> 'a \<Rightarrow> 'a" where
  "coalesce v d = (case v of None \<Rightarrow> d | Some x \<Rightarrow> x)"

text \<open>
  \<^verbatim>\<open>is_org_member(org_id, user_id, min_role)\<close>. The function has a parameter
  \<^verbatim>\<open>user_id\<close>, and its first statement compares
  \<^verbatim>\<open>organization_members.user_id = user_id\<close> with the right-hand side unqualified,
  over a table that has a column \<^verbatim>\<open>user_id\<close>. Under the setting \<^verbatim>\<open>error\<close> the
  statement is rejected when the function runs it, before any row is read, and the call
  aborts. Under \<^verbatim>\<open>use_variable\<close> the name is the parameter; under
  \<^verbatim>\<open>use_column\<close> it is the column, and the comparison holds of every row.

  The \<^verbatim>\<open>SELECT ... INTO\<close> takes the first row that the \<^verbatim>\<open>WHERE\<close> clause
  selects and leaves \<open>user_role_level\<close> NULL when there is none; a comparison with a
  NULL argument selects no row.
\<close>

definition is_org_member ::
  "variable_conflict \<Rightarrow> database \<Rightarrow> uuid option \<Rightarrow> uuid option \<Rightarrow> user_role option
   \<Rightarrow> error + bool" where
  "is_org_member vc db org_id user_id min_role =
     (if vc = conflict_error then Inl (Ambiguous_column ''user_id'')
      else
        (let user_role_level =
               (case find (\<lambda>m. Some (om_organization_id m) = org_id \<and>
                               Some (om_user_id m) =
                                 (if vc = use_column then Some (om_user_id m) else user_id))
                          (organization_members db) of
                  None \<Rightarrow> None
                | Some m \<Rightarrow> Some (role_level (Some (om_role m))));
             min_role_level = role_level min_role
         in Inr (coalesce user_role_level 0 \<ge> min_role_level)))"

section \<open>Constraints of the schema\<close>

text \<open>
  The primary keys, the unique key of \<^verbatim>\<open>organization_members\<close> on
  \<^verbatim>\<open>(user_id, organization_id)\<close> and the foreign keys of the \<^verbatim>\<open>CREATE TABLE\<close>
  statements, as a predicate on the database.
\<close>

definition user_ids :: "database \<Rightarrow> uuid list" where
  "user_ids db = map fst (auth_users db)"

definition organization_ids :: "database \<Rightarrow> uuid list" where
  "organization_ids db = map o_id (organizations db)"

definition member_key :: "organization_member \<Rightarrow> uuid \<times> uuid" where
  "member_key m = (om_user_id m, om_organization_id m)"

definition schema_ok :: "database \<Rightarrow> bool" where
  "schema_ok db =
     (distinct (user_ids db) \<and>
      distinct (organization_ids db) \<and>
      distinct (map om_id (organization_members db)) \<and>
      distinct (map member_key (organization_members db)) \<and>
      distinct (map inv_id (invitations db)) \<and>
      list_all (\<lambda>r. set_option (o_created_by r) \<subseteq> set (user_ids db)) (organizations db) \<and>
      list_all (\<lambda>m. om_user_id m \<in> set (user_ids db) \<and>
                    om_organization_id m \<in> set (organization_ids db))
               (organization_members db) \<and>
      list_all (\<lambda>i. inv_invited_by i \<in> set (user_ids db) \<and>
                    inv_organization_id i \<in> set (organization_ids db))
               (invitations db))"

section \<open>Writes to the tables\<close>

text \<open>
  \<^verbatim>\<open>INSERT INTO organizations\<close>: the primary key and the foreign key of
  \<^verbatim>\<open>created_by\<close> are checked; a NULL \<^verbatim>\<open>created_by\<close> is allowed.
\<close>

definition insert_organizations :: "organization \<Rightarrow> database \<Rightarrow> error + database" where
  "insert_organizations row db =
     (if o_id row \<in> set (organization_ids db) then Inl (Unique_violation ''organizations_pkey'')
      else if (case o_created_by row of None \<Rightarrow> False | Some u \<Rightarrow> u \<notin> set (user_ids db))
        then Inl (Foreign_key_violation ''organizations_created_by_fkey'')
      else Inr (db\<lparr>organizations := organizations db @ [row]\<rparr>))"

text \<open>\<^verbatim>\<open>INSERT INTO organization_members\<close> of a row whose columns are not NULL.\<close>

definition insert_organization_members ::
  "organization_member \<Rightarrow> database \<Rightarrow> error + database" where
  "insert_organization_members row db =
     (if om_id row \<in> set (map om_id (organization_members db))
        then Inl (Unique_violation ''organization_members_pkey'')
      else if member_key row \<in> set (map member_key (organization_members db))
        then Inl (Unique_violation ''organization_members_user_id_organization_id_key'')
      else if om_user_id row \<notin> set (user_ids db)
        then Inl (Foreign_key_violation ''organization_members_user_id_fkey'')
      else if om_organization_id row \<notin> set (organization_ids db)
        then Inl (Foreign_key_violation ''organization_members_organization_id_fkey'')
      else Inr (db\<lparr>organization_members := organization_members db @ [row]\<rparr>))"

text \<open>
  \<^verbatim>\<open>INSERT ... ON CONFLICT (user_id, organization_id) DO UPDATE SET role = ...\<close>:
  the row that holds the same user and organization gets the new role and nothing is
  inserted; without such a row it is a plain insert.
\<close>

definition upsert_organization_members ::
  "organization_member \<Rightarrow> database \<Rightarrow> error + database" where
  "upsert_organization_members row db =
     (if member_key row \<in> set (map member_key (organization_members db))
        then Inr (db\<lparr>organization_members :=
                     map (\<lambda>m. if member_key m = member_key row then m\<lparr>om_role := om_role row\<rparr> else m)
                         (organization_members db)\<rparr>)
      else insert_organization_members row db)"

definition insert_invitations :: "invitation \<Rightarrow> database \<Rightarrow> error + database" where
  "insert_invitations row db =
     (if inv_id row \<in> set (map inv_id (invitations db))
        then Inl (Unique_violation ''invitations_pkey'')
      else if inv_organization_id row \<notin> set (organization_ids db)
        then Inl (Foreign_key_violation ''invitations_organization_id_fkey'')
      else if inv_invited_by row \<notin> set (user_ids db)
        then Inl (Foreign_key_violation ''invitations_invited_by_fkey'')
      else Inr (db\<lparr>invitations := invitations db @ [row]\<rparr>))"

text \<open>
  \<^verbatim>\<open>UPDATE invitations SET status = ..., updated_at = now() WHERE id = invitation_id\<close>.
\<close>

definition update_invitations_status ::
  "uuid \<Rightarrow> invitation_status \<Rightarrow> timestamp \<Rightarrow> database \<Rightarrow> database" where
  "update_invitations_status invitation_id st ts db =
     db\<lparr>invitations :=
          map (\<lambda>i. if inv_id i = invitation_id then i\<lparr>inv_status := st, inv_updated_at := ts\<rparr> else i)
              (invitations db)\<rparr>"

section \<open>The stored procedures\<close>

text \<open>
  The values of \<^verbatim>\<open>uuid_generate_v4()\<close> that the column defaults draw are arguments
  (\<open>gen_org\<close>, \<open>gen_member\<close>, \<open>gen_inv\<close>) of the procedures that insert rows.
  The arguments of a remote call are not NULL, except \<open>org_description\<close>, whose column
  is nullable; the NULLs that the procedures produce themselves (\<^verbatim>\<open>auth.uid()\<close>, a
  \<^verbatim>\<open>SELECT ... INTO\<close> without a row) are modelled.

  \<^verbatim>\<open>create_organization_and_assign_admin(org_name, org_description)\<close>: the second
  insert aborts on a NULL \<^verbatim>\<open>auth.uid()\<close>, the column \<^verbatim>\<open>user_id\<close> being NOT NULL.
\<close>

definition create_organization_and_assign_admin ::
  "session \<Rightarrow> uuid \<Rightarrow> uuid \<Rightarrow> string \<Rightarrow> string option \<Rightarrow> uuid procedure" where
  "create_organization_and_assign_admin s gen_org gen_member org_name org_description db =
     (let user_id = auth_uid s in
      case insert_organizations
             \<lparr>o_id = gen_org, o_created_at = now s, o_updated_at = now s, o_name = org_name,
              o_description = org_description, o_created_by = user_id\<rparr> db of
        Inl e \<Rightarrow> Inl e
      | Inr db1 \<Rightarrow>
          (let new_org_id = gen_org in
           case user_id of
             None \<Rightarrow> Inl (Not_null_violation ''organization_members.user_id'')
           | Some u \<Rightarrow>
               (case insert_organization_members
                       \<lparr>om_id = gen_member, om_created_at = now s, om_user_id = u,
                        om_organization_id = new_org_id, om_role = admin\<rparr> db1 of
                  Inl e \<Rightarrow> Inl e
                | Inr db2 \<Rightarrow> Inr (new_org_id, db2))))"

text \<open>\<^verbatim>\<open>invite_organization_member(org_id, invitee_email, invitee_role)\<close>.\<close>

definition invite_organization_member ::
  "session \<Rightarrow> uuid \<Rightarrow> uuid \<Rightarrow> string \<Rightarrow> user_role \<Rightarrow> unit procedure" where
  "invite_organization_member s gen_inv org_id invitee_email invitee_role db =
     (case is_org_member (variable_conflict s) db (Some org_id) (auth_uid s) (Some admin) of
        Inl e \<Rightarrow> Inl e
      | Inr is_admin \<Rightarrow>
          if \<not> is_admin then Inl Only_admins_can_invite_new_members
          else case auth_uid s of
                 None \<Rightarrow> Inl (Not_null_violation ''invitations.invited_by'')
               | Some u \<Rightarrow>
                   (case insert_invitations
                           \<lparr>inv_id = gen_inv, inv_created_at = now s, inv_updated_at = now s,
                            inv_organization_id = org_id, inv_invited_by = u,
                            inv_invitee_email = invitee_email, inv_role = invitee_role,
                            inv_status = pending\<rparr> db of
                      Inl e \<Rightarrow> Inl e
                    | Inr db1 \<Rightarrow> Inr ((), db1)))"

text \<open>
  \<^verbatim>\<open>(SELECT email FROM auth.users WHERE id = auth.uid())\<close>: NULL when the caller is
  not signed in, has no row, or has a NULL email.
\<close>

definition auth_email :: "database \<Rightarrow> uuid option \<Rightarrow> string option" where
  "auth_email db uid =
     (case uid of
        None \<Rightarrow> None
      | Some u \<Rightarrow> (case map_of (auth_users db) u of None \<Rightarrow> None | Some e \<Rightarrow> e))"

text \<open>
  \<^verbatim>\<open>IF a != b THEN\<close>: the branch is taken only when the comparison is true, and a
  comparison with NULL is not.
\<close>

definition sql_neq :: "'a option \<Rightarrow> 'a option \<Rightarrow> bool" where
  "sql_neq a b = (case (a, b) of (Some x, Some y) \<Rightarrow> x \<noteq> y | _ \<Rightarrow> False)"

text \<open>
  \<^verbatim>\<open>SELECT * INTO invite FROM invitations WHERE id = invitation_id AND status = 'pending'\<close>;
  \<^verbatim>\<open>invite IS NULL\<close> holds exactly when no row was found, the columns of a row
  being NOT NULL.
\<close>

definition pending_invitation :: "database \<Rightarrow> uuid \<Rightarrow> invitation option" where
  "pending_invitation db invitation_id =
     find (\<lambda>i. inv_id i = invitation_id \<and> inv_status i = pending) (invitations db)"

definition accept_invitation :: "session \<Rightarrow> uuid \<Rightarrow> uuid \<Rightarrow> unit procedure" where
  "accept_invitation s gen_member invitation_id db =
     (case pending_invitation db invitation_id of
        None \<Rightarrow> Inl Invitation_not_found_or_already_actioned
      | Some invite \<Rightarrow>
          if sql_neq (auth_email db (auth_uid s)) (Some (inv_invitee_email invite))
            then Inl You_are_not_authorized_to_accept_this_invitation
          else (case auth_uid s of
                  None \<Rightarrow> Inl (Not_null_violation ''organization_members.user_id'')
                | Some u \<Rightarrow>
                    (case upsert_organization_members
                            \<lparr>om_id = gen_member, om_created_at = now s, om_user_id = u,
                             om_organization_id = inv_organization_id invite,
                             om_role = inv_role invite\<rparr> db of
                       Inl e \<Rightarrow> Inl e
                     | Inr db1 \<Rightarrow>
                         Inr ((), update_invitations_status invitation_id accepted (now s) db1))))"

definition decline_invitation :: "session \<Rightarrow> uuid \<Rightarrow> unit procedure" where
  "decline_invitation s invitation_id db =
     (case pending_invitation db invitation_id of
        None \<Rightarrow> Inl Invitation_not_found_or_already_actioned
      | Some invite \<Rightarrow>
          if sql_neq (auth_email db (auth_uid s)) (Some (inv_invitee_email invite))
            then Inl You_are_not_authorized_to_decline_this_invitation
          else Inr ((), update_invitations_status invitation_id declined (now s) db))"

text \<open>
  \<^verbatim>\<open>SELECT * INTO member FROM organization_members WHERE id = member_id\<close>: without a
  row every field of \<open>member\<close> is NULL, \<^verbatim>\<open>member.organization_id\<close> too.
\<close>

definition member_by_id :: "database \<Rightarrow> uuid \<Rightarrow> organization_member option" where
  "member_by_id db member_id = find (\<lambda>m. om_id m = member_id) (organization_members db)"

definition update_organization_member_role ::
  "session \<Rightarrow> uuid \<Rightarrow> user_role \<Rightarrow> unit procedure" where
  "update_organization_member_role s member_id new_role db =
     (let member = member_by_id db member_id in
      case is_org_member (variable_conflict s) db (map_option om_organization_id member)
             (auth_uid s) (Some admin) of
        Inl e \<Rightarrow> Inl e
      | Inr is_admin \<Rightarrow>
          if \<not> is_admin then Inl Only_admins_can_change_roles
          else Inr ((), db\<lparr>organization_members :=
                            map (\<lambda>m. if om_id m = member_id then m\<lparr>om_role := new_role\<rparr> else m)
                                (organization_members db)\<rparr>))"

definition remove_organization_member :: "session \<Rightarrow> uuid \<Rightarrow> unit procedure" where
  "remove_organization_member s member_id db =
     (let member = member_by_id db member_id in
      case is_org_member (variable_conflict s) db (map_option om_organization_id member)
             (auth_uid s) (Some admin) of
        Inl e \<Rightarrow> Inl e
      | Inr is_admin \<Rightarrow>
          if \<not> is_admin then Inl Only_admins_can_remove_members
          else Inr ((), db\<lparr>organization_members :=
                            filter (\<lambda>m. om_id m \<noteq> member_id) (organization_members db)\<rparr>))"

text \<open>
  The number of admin memberships of an organization,
  \<^verbatim>\<open>SELECT count(*) FROM organization_members WHERE organization_id = org_id AND role = 'admin'\<close>.
\<close>

definition admin_count :: "database \<Rightarrow> uuid \<Rightarrow> nat" where
  "admin_count db org =
     length (filter (\<lambda>m. om_organization_id m = org \<and> om_role m = admin) (organization_members db))"

text \<open>
  The earlier revision of \<^verbatim>\<open>remove_organization_member\<close> (the migration that
  "recreates the team management functions", \<^verbatim>\<open>src/unnamed/part_003\<close>), with its guard
  "Prevent admin from removing themselves if they are the last admin". It does not call
  \<^verbatim>\<open>is_org_member\<close> and reads the caller's role itself, with no name of its
  statements both a variable and a column; \<^verbatim>\<open>current_user_role != 'admin'\<close> is NULL,
  so not taken, for a caller without a membership.
\<close>

definition remove_organization_member_part_003 :: "session \<Rightarrow> uuid \<Rightarrow> unit procedure" where
  "remove_organization_member_part_003 s member_id db =
     (let member = member_by_id db member_id;
          org_id = map_option om_organization_id member;
          member_user_id = map_option om_user_id member;
          current_user_role =
            map_option om_role
              (find (\<lambda>m. Some (om_organization_id m) = org_id \<and> Some (om_user_id m) = auth_uid s)
                    (organization_members db))
      in if sql_neq current_user_role (Some admin) then Inl Only_admins_can_remove_members
         else if length (filter (\<lambda>m. Some (om_organization_id m) = org_id \<and> om_role m = admin)
                                (organization_members db)) = 1
                 \<and> member_user_id \<noteq> None \<and> member_user_id = auth_uid s
           then Inl You_cannot_remove_yourself_as_you_are_the_last_admin
         else Inr ((), db\<lparr>organization_members :=
                           filter (\<lambda>m. om_id m \<noteq> member_id) (organization_members db)\<rparr>))"

section \<open>Sequences of calls\<close>

datatype call =
    Create_organization_and_assign_admin uuid uuid string "string option"
  | Invite_organization_member uuid uuid string user_role
  | Accept_invitation uuid uuid
  | Decline_invitation uuid
  | Update_organization_member_role uuid user_role
  | Remove_organization_member uuid

text \<open>The database after one remote call, whatever it returned.\<close>

fun exec :: "session \<times> call \<Rightarrow> database \<Rightarrow> database" where
  "exec (s, Create_organization_and_assign_admin gen_org gen_member org_name org_description) db =
     snd (rpc (create_organization_and_assign_admin s gen_org gen_member org_name org_description) db)"
| "exec (s, Invite_organization_member gen_inv org_id invitee_email invitee_role) db =
     snd (rpc (invite_organization_member s gen_inv org_id invitee_email invitee_role) db)"
| "exec (s, Accept_invitation gen_member invitation_id) db =
     snd (rpc (accept_invitation s gen_member invitation_id) db)"
| "exec (s, Decline_invitation invitation_id) db =
     snd (rpc (decline_invitation s invitation_id) db)"
| "exec (s, Update_organization_member_role member_id new_role) db =
     snd (rpc (update_organization_member_role s member_id new_role) db)"
| "exec (s, Remove_organization_member member_id) db =
     snd (rpc (remove_organization_member s member_id) db)"

fun run :: "(session \<times> call) list \<Rightarrow> database \<Rightarrow> database" where
  "run [] db = db"
| "run (c # cs) db = run cs (exec c db)"

section \<open>Example databases\<close>

text \<open>
  One organization (10) with an admin (user 1, membership 20) and an editor (user 2,
  membership 21), a third user without a membership, and a pending invitation (30) of the
  third user's email as viewer.
\<close>

definition example_db :: database where
  "example_db =
     \<lparr>auth_users = [(1, Some ''ann@acme.io''), (2, Some ''bob@acme.io''), (3, Some ''eve@else.io'')],
      organizations =
        [\<lparr>o_id = 10, o_created_at = 0, o_updated_at = 0, o_name = ''Acme'',
          o_description = Some ''desc'', o_created_by = Some 1\<rparr>],
      organization_members =
        [\<lparr>om_id = 20, om_created_at = 0, om_user_id = 1, om_organization_id = 10, om_role = admin\<rparr>,
         \<lparr>om_id = 21, om_created_at = 1, om_user_id = 2, om_organization_id = 10, om_role = editor\<rparr>],
      invitations =
        [\<lparr>inv_id = 30, inv_created_at = 2, inv_updated_at = 2, inv_organization_id = 10,
          inv_invited_by = 1, inv_invitee_email = ''eve@else.io'', inv_role = viewer,
          inv_status = pending\<rparr>]\<rparr>"

text \<open>The sessions of the three users, under the default setting.\<close>

definition ann :: session where
  "ann = \<lparr>auth_uid = Some 1, now = 5, variable_conflict = conflict_error\<rparr>"

definition bob :: session where
  "bob = \<lparr>auth_uid = Some 2, now = 6, variable_conflict = conflict_error\<rparr>"

definition eve :: session where
  "eve = \<lparr>auth_uid = Some 3, now = 7, variable_conflict = conflict_error\<rparr>"

text \<open>The same sessions on a database configured with \<^verbatim>\<open>use_variable\<close>.\<close>

definition ann_use_variable :: session where
  "ann_use_variable = ann\<lparr>variable_conflict := use_variable\<rparr>"

definition bob_use_variable :: session where
  "bob_use_variable = bob\<lparr>variable_conflict := use_variable\<rparr>"

text \<open>The users alone, before any organization exists.\<close>

definition users_only_db :: database where
  "users_only_db =
     \<lparr>auth_users = [(1, Some ''ann@acme.io''), (2, Some ''bob@acme.io''), (3, Some ''eve@else.io'')],
      organizations = [], organization_members = [], invitations = []\<rparr>"

text \<open>The pending invitation of \<open>example_db\<close>.\<close>

definition eve_invitation :: invitation where
  "eve_invitation =
     \<lparr>inv_id = 30, inv_created_at = 2, inv_updated_at = 2, inv_organization_id = 10,
      inv_invited_by = 1, inv_invitee_email = ''eve@else.io'', inv_role = viewer,
      inv_status = pending\<rparr>"

text \<open>\<open>users_only_db\<close> after user 1 has created the organization 10.\<close>

definition acme_db :: database where
  "acme_db =
     users_only_db
       \<lparr>organizations :=
          [\<lparr>o_id = 10, o_created_at = 5, o_updated_at = 5, o_name = ''Acme'',
            o_description = Some ''desc'', o_created_by = Some 1\<rparr>],
        organization_members :=
          [\<lparr>om_id = 20, om_created_at = 5, om_user_id = 1, om_organization_id = 10, om_role = admin\<rparr>]\<rparr>"

text \<open>\<open>acme_db\<close> with its only membership turned into a viewer.\<close>

definition demoted_db :: database where
  "demoted_db =
     acme_db\<lparr>organization_members :=
          [\<lparr>om_id = 20, om_created_at = 5, om_user_id = 1, om_organization_id = 10, om_role = viewer\<rparr>]\<rparr>"

text \<open>\<open>example_db\<close> without the membership 20 of its admin.\<close>

definition no_admin_db :: database where
  "no_admin_db =
     example_db\<lparr>organization_members :=
        [\<lparr>om_id = 21, om_created_at = 1, om_user_id = 2, om_organization_id = 10, om_role = editor\<rparr>]\<rparr>"

text \<open>\<open>example_db\<close> after user 3 has accepted the invitation 30 at time 7.\<close>

definition joined_db :: database where
  "joined_db =
     example_db
       \<lparr>organization_members :=
          [\<lparr>om_id = 20, om_created_at = 0, om_user_id = 1, om_organization_id = 10, om_role = admin\<rparr>,
           \<lparr>om_id = 21, om_created_at = 1, om_user_id = 2, om_organization_id = 10, om_role = editor\<rparr>,
           \<lparr>om_id = 22, om_created_at = 7, om_user_id = 3, om_organization_id = 10, om_role = viewer\<rparr>],
        invitations := [eve_invitation\<lparr>inv_status := accepted, inv_updated_at := 7\<rparr>]\<rparr>"

section \<open>The schema constraints are kept by every procedure\<close>

lemma user_ids_simps [simp]:
  "user_ids (db\<lparr>organizations := os\<rparr>) = user_ids db"
  "user_ids (db\<lparr>organization_members := ms\<rparr>) = user_ids db"
  "user_ids (db\<lparr>invitations := is\<rparr>) = user_ids db"
  by (simp_all add: user_ids_def)

lemma organization_ids_simps [simp]:
  "organization_ids (db\<lparr>organizations := os\<rparr>) = map o_id os"
  "organization_ids (db\<lparr>organization_members := ms\<rparr>) = organization_ids db"
  "organization_ids (db\<lparr>invitations := is\<rparr>) = organization_ids db"
  by (simp_all add: organization_ids_def)

lemma role_update_comp [simp]:
  "om_id \<circ> (\<lambda>m. if P m then m\<lparr>om_role := r\<rparr> else m) = om_id"
  "member_key \<circ> (\<lambda>m. if P m then m\<lparr>om_role := r\<rparr> else m) = member_key"
  by (auto simp: fun_eq_iff member_key_def)

lemma status_update_comp [simp]:
  "inv_id \<circ> (\<lambda>i. if P i then i\<lparr>inv_status := st, inv_updated_at := ts\<rparr> else i) = inv_id"
  by (auto simp: fun_eq_iff)

lemma schema_ok_insert_organizations:
  assumes "schema_ok db" "insert_organizations row db = Inr db'"
  shows "schema_ok db'"
proof -
  from assms(2) have fresh: "o_id row \<notin> set (organization_ids db)"
    and fk: "set_option (o_created_by row) \<subseteq> set (user_ids db)"
    and db': "db' = db\<lparr>organizations := organizations db @ [row]\<rparr>"
    by (auto simp: insert_organizations_def split: if_splits option.splits)
  from assms(1) fresh fk show ?thesis
    unfolding db' schema_ok_def
    by (auto simp: organization_ids_def list_all_iff)
qed

lemma schema_ok_insert_organization_members:
  assumes "schema_ok db" "insert_organization_members row db = Inr db'"
  shows "schema_ok db'"
proof -
  from assms(2) have fresh: "om_id row \<notin> set (map om_id (organization_members db))"
    "member_key row \<notin> set (map member_key (organization_members db))"
    and fk: "om_user_id row \<in> set (user_ids db)" "om_organization_id row \<in> set (organization_ids db)"
    and db': "db' = db\<lparr>organization_members := organization_members db @ [row]\<rparr>"
    by (auto simp: insert_organization_members_def split: if_splits)
  from assms(1) fresh fk show ?thesis
    unfolding db' schema_ok_def
    by (auto simp: list_all_iff)
qed

lemma schema_ok_role_update:
  assumes "schema_ok db"
  shows "schema_ok (db\<lparr>organization_members :=
           map (\<lambda>m. if P m then m\<lparr>om_role := r\<rparr> else m) (organization_members db)\<rparr>)"
  using assms unfolding schema_ok_def
  by (auto simp: list_all_iff)

lemma schema_ok_upsert_organization_members:
  assumes "schema_ok db" "upsert_organization_members row db = Inr db'"
  shows "schema_ok db'"
proof (cases "member_key row \<in> set (map member_key (organization_members db))")
  case True
  with assms(2) have db': "db' = db\<lparr>organization_members :=
       map (\<lambda>m. if member_key m = member_key row then m\<lparr>om_role := om_role row\<rparr> else m)
           (organization_members db)\<rparr>"
    by (simp add: upsert_organization_members_def)
  from assms(1) show ?thesis
    unfolding db' by (rule schema_ok_role_update)
next
  case False
  with assms(2) have "insert_organization_members row db = Inr db'"
    by (simp add: upsert_organization_members_def)
  with assms(1) show ?thesis by (rule schema_ok_insert_organization_members)
qed

lemma schema_ok_insert_invitations:
  assumes "schema_ok db" "insert_invitations row db = Inr db'"
  shows "schema_ok db'"
proof -
  from assms(2) have fresh: "inv_id row \<notin> set (map inv_id (invitations db))"
    and fk: "inv_invited_by row \<in> set (user_ids db)" "inv_organization_id row \<in> set (organization_ids db)"
    and db': "db' = db\<lparr>invitations := invitations db @ [row]\<rparr>"
    by (auto simp: insert_invitations_def split: if_splits)
  from assms(1) fresh fk show ?thesis
    unfolding db' schema_ok_def
    by (auto simp: list_all_iff)
qed

lemma schema_ok_update_invitations_status:
  assumes "schema_ok db"
  shows "schema_ok (update_invitations_status invitation_id st ts db)"
  using assms
  unfolding update_invitations_status_def schema_ok_def
  by (auto simp: list_all_iff)

lemma create_organization_and_assign_admin_InrE:
  assumes "create_organization_and_assign_admin s gen_org gen_member org_name org_description db = Inr (r, db')"
  obtains u db1 where "auth_uid s = Some u" "r = gen_org"
    "insert_organizations
       \<lparr>o_id = gen_org, o_created_at = now s, o_updated_at = now s, o_name = org_name,
        o_description = org_description, o_created_by = Some u\<rparr> db = Inr db1"
    "insert_organization_members
       \<lparr>om_id = gen_member, om_created_at = now s, om_user_id = u,
        om_organization_id = gen_org, om_role = admin\<rparr> db1 = Inr db'"
  using assms
  by (auto simp: create_organization_and_assign_admin_def Let_def split: sum.splits option.splits)

lemma is_org_member_conflict_error [simp]:
  "is_org_member conflict_error db org_id user_id min_role = Inl (Ambiguous_column ''user_id'')"
  by (simp add: is_org_member_def)

lemma invite_organization_member_InrE:
  assumes "invite_organization_member s gen_inv org_id invitee_email invitee_role db = Inr (r, db')"
  obtains u where "auth_uid s = Some u"
    "is_org_member (variable_conflict s) db (Some org_id) (Some u) (Some admin) = Inr True"
    "insert_invitations
       \<lparr>inv_id = gen_inv, inv_created_at = now s, inv_updated_at = now s,
        inv_organization_id = org_id, inv_invited_by = u,
        inv_invitee_email = invitee_email, inv_role = invitee_role,
        inv_status = pending\<rparr> db = Inr db'"
  using assms
  by (auto simp: invite_organization_member_def split: sum.splits option.splits if_splits)

lemma accept_invitation_InrE:
  assumes "accept_invitation s gen_member invitation_id db = Inr (r, db')"
  obtains invite u db1 where "pending_invitation db invitation_id = Some invite"
    "auth_uid s = Some u"
    "\<not> sql_neq (auth_email db (Some u)) (Some (inv_invitee_email invite))"
    "upsert_organization_members
       \<lparr>om_id = gen_member, om_created_at = now s, om_user_id = u,
        om_organization_id = inv_organization_id invite, om_role = inv_role invite\<rparr> db = Inr db1"
    "db' = update_invitations_status invitation_id accepted (now s) db1"
  using assms
  by (auto simp: accept_invitation_def split: sum.splits option.splits if_splits)

lemma decline_invitation_InrE:
  assumes "decline_invitation s invitation_id db = Inr (r, db')"
  obtains invite where "pending_invitation db invitation_id = Some invite"
    "\<not> sql_neq (auth_email db (auth_uid s)) (Some (inv_invitee_email invite))"
    "db' = update_invitations_status invitation_id declined (now s) db"
  using assms
  by (auto simp: decline_invitation_def split: sum.splits option.splits if_splits)

lemma update_organization_member_role_InrE:
  assumes "update_organization_member_role s member_id new_role db = Inr (r, db')"
  obtains "is_org_member (variable_conflict s) db
             (map_option om_organization_id (member_by_id db member_id))
             (auth_uid s) (Some admin) = Inr True"
    "db' = db\<lparr>organization_members :=
             map (\<lambda>m. if om_id m = member_id then m\<lparr>om_role := new_role\<rparr> else m)
                 (organization_members db)\<rparr>"
  using assms
  by (auto simp: update_organization_member_role_def Let_def split: sum.splits if_splits)

lemma remove_organization_member_InrE:
  assumes "remove_organization_member s member_id db = Inr (r, db')"
  obtains "is_org_member (variable_conflict s) db
             (map_option om_organization_id (member_by_id db member_id))
             (auth_uid s) (Some admin) = Inr True"
    "db' = db\<lparr>organization_members :=
             filter (\<lambda>m. om_id m \<noteq> member_id) (organization_members db)\<rparr>"
  using assms
  by (auto simp: remove_organization_member_def Let_def split: sum.splits if_splits)

lemma schema_ok_create:
  assumes "schema_ok db"
    "create_organization_and_assign_admin s gen_org gen_member org_name org_description db = Inr (r, db')"
  shows "schema_ok db'"
  using assms(2)
proof (rule create_organization_and_assign_admin_InrE)
  fix u db1
  assume "insert_organizations
       \<lparr>o_id = gen_org, o_created_at = now s, o_updated_at = now s, o_name = org_name,
        o_description = org_description, o_created_by = Some u\<rparr> db = Inr db1"
  with assms(1) have "schema_ok db1" by (rule schema_ok_insert_organizations)
  moreover assume "insert_organization_members
       \<lparr>om_id = gen_member, om_created_at = now s, om_user_id = u,
        om_organization_id = gen_org, om_role = admin\<rparr> db1 = Inr db'"
  ultimately show ?thesis by (rule schema_ok_insert_organization_members)
qed

lemma schema_ok_invite:
  assumes "schema_ok db"
    "invite_organization_member s gen_inv org_id invitee_email invitee_role db = Inr (r, db')"
  shows "schema_ok db'"
  using assms(2)
  by (rule invite_organization_member_InrE) (rule schema_ok_insert_invitations [OF assms(1)])

lemma schema_ok_accept:
  assumes "schema_ok db" "accept_invitation s gen_member invitation_id db = Inr (r, db')"
  shows "schema_ok db'"
  using assms(2)
proof (rule accept_invitation_InrE)
  fix invite u db1
  assume "upsert_organization_members
       \<lparr>om_id = gen_member, om_created_at = now s, om_user_id = u,
        om_organization_id = inv_organization_id invite, om_role = inv_role invite\<rparr> db = Inr db1"
  with assms(1) have "schema_ok db1" by (rule schema_ok_upsert_organization_members)
  moreover assume "db' = update_invitations_status invitation_id accepted (now s) db1"
  ultimately show ?thesis by (simp add: schema_ok_update_invitations_status)
qed

lemma schema_ok_decline:
  assumes "schema_ok db" "decline_invitation s invitation_id db = Inr (r, db')"
  shows "schema_ok db'"
  using assms(2)
  by (rule decline_invitation_InrE) (simp add: schema_ok_update_invitations_status assms(1))

lemma schema_ok_update:
  assumes "schema_ok db" "update_organization_member_role s member_id new_role db = Inr (r, db')"
  shows "schema_ok db'"
  using assms(2)
  by (rule update_organization_member_role_InrE) (simp add: schema_ok_role_update assms(1))

lemma schema_ok_remove:
  assumes "schema_ok db" "remove_organization_member s member_id db = Inr (r, db')"
  shows "schema_ok db'"
  using assms(2)
proof (rule remove_organization_member_InrE)
  assume db': "db' = db\<lparr>organization_members :=
       filter (\<lambda>m. om_id m \<noteq> member_id) (organization_members db)\<rparr>"
  from assms(1) show ?thesis
    unfolding db' schema_ok_def
    by (auto simp: distinct_map_filter list_all_iff)
qed

lemma snd_rpc_cases:
  "snd (rpc p db) = db \<or> (\<exists>r. p db = Inr (r, snd (rpc p db)))"
  by (auto simp: rpc_def split: sum.splits)

lemma schema_ok_exec:
  assumes "schema_ok db"
  shows "schema_ok (exec c db)"
proof (cases c)
  case (Pair s k)
  show ?thesis
  proof (cases k)
    case (Create_organization_and_assign_admin g1 g2 n d)
    with Pair assms snd_rpc_cases [of "create_organization_and_assign_admin s g1 g2 n d" db]
    show ?thesis by (auto dest: schema_ok_create)
  next
    case (Invite_organization_member g oid em rl)
    with Pair assms snd_rpc_cases [of "invite_organization_member s g oid em rl" db]
    show ?thesis by (auto dest: schema_ok_invite)
  next
    case (Accept_invitation g i)
    with Pair assms snd_rpc_cases [of "accept_invitation s g i" db]
    show ?thesis by (auto dest: schema_ok_accept)
  next
    case (Decline_invitation i)
    with Pair assms snd_rpc_cases [of "decline_invitation s i" db]
    show ?thesis by (auto dest: schema_ok_decline)
  next
    case (Update_organization_member_role m r)
    with Pair assms snd_rpc_cases [of "update_organization_member_role s m r" db]
    show ?thesis by (auto dest: schema_ok_update)
  next
    case (Remove_organization_member m)
    with Pair assms snd_rpc_cases [of "remove_organization_member s m" db]
    show ?thesis by (auto dest: schema_ok_remove)
  qed
qed

lemma schema_ok_run: "schema_ok db \<Longrightarrow> schema_ok (run cs db)"
  by (induction cs arbitrary: db) (simp_all add: schema_ok_exec)

section \<open>The number of admins\<close>



lemma admin_count_insert_invitations:
  "insert_invitations row db = Inr db' \<Longrightarrow> admin_count db' org = admin_count db org"
  by (auto simp: insert_invitations_def admin_count_def split: if_splits)

lemma admin_count_update_invitations_status [simp]:
  "admin_count (update_invitations_status i st ts db) org = admin_count db org"
  by (simp add: update_invitations_status_def admin_count_def)



section \<open>Lookups and the upsert\<close>

lemma find_append:
  "find P (xs @ ys) = (case find P xs of None \<Rightarrow> find P ys | Some x \<Rightarrow> Some x)"
  by (induction xs) simp_all


lemma auth_email_SomeD:
  "auth_email db (Some u) = Some e \<Longrightarrow> u \<in> set (user_ids db)"
proof -
  assume "auth_email db (Some u) = Some e"
  then have "map_of (auth_users db) u = Some (Some e)"
    by (simp add: auth_email_def split: option.splits)
  then have "(u, Some e) \<in> set (auth_users db)" by (rule map_of_SomeD)
  then have "fst (u, Some e) \<in> fst ` set (auth_users db)" by (rule imageI)
  then show ?thesis by (simp add: user_ids_def)
qed

lemma pending_invitation_SomeD:
  assumes "pending_invitation db invitation_id = Some invite"
  shows "invite \<in> set (invitations db)" "inv_id invite = invitation_id" "inv_status invite = pending"
  using assms by (auto simp: pending_invitation_def find_Some_iff in_set_conv_nth)

lemma pending_invitation_actioned:
  "st \<noteq> pending \<Longrightarrow> pending_invitation (update_invitations_status invitation_id st ts db) invitation_id = None"
proof -
  assume st: "st \<noteq> pending"
  have "find (\<lambda>i. inv_id i = invitation_id \<and> inv_status i = pending)
          (map (\<lambda>i. if inv_id i = invitation_id then i\<lparr>inv_status := st, inv_updated_at := ts\<rparr> else i) xs)
        = None" for xs
    using st by (induction xs) simp_all
  then show ?thesis
    by (simp add: pending_invitation_def update_invitations_status_def)
qed

lemma filter_key_single:
  "distinct (map k xs) \<Longrightarrow> x \<in> set xs \<Longrightarrow> filter (\<lambda>y. k y = k x) xs = [x]"
proof (induction xs)
  case Nil
  then show ?case by simp
next
  case (Cons a xs)
  show ?case
  proof (cases "a = x")
    case True
    with Cons.prems(1) have "k x \<notin> k ` set xs" by simp
    then have "\<forall>y \<in> set xs. k y \<noteq> k x" by (metis imageI)
    then have "filter (\<lambda>y. k y = k x) xs = []" by (simp add: filter_empty_conv)
    with True show ?thesis by simp
  next
    case False
    with Cons.prems have x: "x \<in> set xs" and d: "distinct (map k xs)" and "k a \<notin> k ` set xs"
      by auto
    then have "k a \<noteq> k x" by (metis imageI)
    with Cons.IH [OF d x] show ?thesis by simp
  qed
qed

lemma filter_key_update:
  assumes "distinct (map k xs)" "x \<in> set xs" "\<And>y. k (g y) = k y"
  shows "filter (\<lambda>y. k y = k x) (map (\<lambda>y. if k y = k x then g y else y) xs) = [g x]"
proof -
  have "(\<lambda>y. k y = k x) \<circ> (\<lambda>y. if k y = k x then g y else y) = (\<lambda>y. k y = k x)"
    using assms(3) by (auto simp: fun_eq_iff)
  then have "filter (\<lambda>y. k y = k x) (map (\<lambda>y. if k y = k x then g y else y) xs) =
        map (\<lambda>y. if k y = k x then g y else y) (filter (\<lambda>y. k y = k x) xs)"
    by (simp add: filter_map)
  also have "\<dots> = [g x]"
    by (simp add: filter_key_single [OF assms(1,2)])
  finally show ?thesis .
qed

lemma filter_other_update:
  "filter (\<lambda>y. k y \<noteq> a) (map (\<lambda>y. if k y = a then g y else y) xs) = filter (\<lambda>y. k y \<noteq> a) xs"
  if "\<And>y. k (g y) = k y"
  using that by (induction xs) auto

lemma upsert_single_row:
  assumes "schema_ok db" "upsert_organization_members row db = Inr db1"
  shows "map om_role (filter (\<lambda>m. member_key m = member_key row) (organization_members db1)) = [om_role row]"
    and "filter (\<lambda>m. member_key m \<noteq> member_key row) (organization_members db1) =
         filter (\<lambda>m. member_key m \<noteq> member_key row) (organization_members db)"
    and "length (organization_members db1) =
         length (organization_members db) +
         (if member_key row \<in> set (map member_key (organization_members db)) then 0 else 1)"
    and "auth_users db1 = auth_users db" "organizations db1 = organizations db"
        "invitations db1 = invitations db"
proof -
  from assms(1) have d: "distinct (map member_key (organization_members db))"
    by (simp add: schema_ok_def)
  let ?f = "\<lambda>m. if member_key m = member_key row then m\<lparr>om_role := om_role row\<rparr> else m"
  have keep: "member_key (m\<lparr>om_role := r\<rparr>) = member_key m" for m r
    by (simp add: member_key_def)
  show "map om_role (filter (\<lambda>m. member_key m = member_key row) (organization_members db1)) = [om_role row]"
  proof (cases "member_key row \<in> set (map member_key (organization_members db))")
    case True
    then obtain x where x: "x \<in> set (organization_members db)" "member_key x = member_key row"
      by auto
    from True assms(2) have ms: "organization_members db1 = map ?f (organization_members db)"
      by (auto simp: upsert_organization_members_def)
    from filter_key_update [OF d x(1), of "\<lambda>m. m\<lparr>om_role := om_role row\<rparr>"] x(2) keep
    show ?thesis by (simp add: ms)
  next
    case False
    then have "member_key row \<notin> member_key ` set (organization_members db)" by simp
    then have "\<forall>m \<in> set (organization_members db). member_key m \<noteq> member_key row"
      by (metis imageI)
    then have none: "filter (\<lambda>m. member_key m = member_key row) (organization_members db) = []"
      by (simp add: filter_empty_conv)
    from False assms(2) have "organization_members db1 = organization_members db @ [row]"
      by (auto simp: upsert_organization_members_def insert_organization_members_def split: if_splits)
    with none show ?thesis by simp
  qed
  show "filter (\<lambda>m. member_key m \<noteq> member_key row) (organization_members db1) =
         filter (\<lambda>m. member_key m \<noteq> member_key row) (organization_members db)"
  proof (cases "member_key row \<in> set (map member_key (organization_members db))")
    case True
    with assms(2) have ms: "organization_members db1 = map ?f (organization_members db)"
      by (auto simp: upsert_organization_members_def)
    show ?thesis unfolding ms by (rule filter_other_update) (rule keep)
  next
    case False
    with assms(2) have "organization_members db1 = organization_members db @ [row]"
      by (auto simp: upsert_organization_members_def insert_organization_members_def split: if_splits)
    then show ?thesis by simp
  qed
  from assms(2) show "length (organization_members db1) =
         length (organization_members db) +
         (if member_key row \<in> set (map member_key (organization_members db)) then 0 else 1)"
    by (auto simp: upsert_organization_members_def insert_organization_members_def split: if_splits)
  from assms(2) show "auth_users db1 = auth_users db" "organizations db1 = organizations db"
        "invitations db1 = invitations db"
    by (auto simp: upsert_organization_members_def insert_organization_members_def split: if_splits)
qed

lemma upsert_succeeds:
  assumes "om_id row \<notin> set (map om_id (organization_members db))"
    "om_user_id row \<in> set (user_ids db)" "om_organization_id row \<in> set (organization_ids db)"
  shows "\<exists>db1. upsert_organization_members row db = Inr db1"
  using assms by (simp add: upsert_organization_members_def insert_organization_members_def)

lemma find_member_unique:
  "distinct (map member_key ms) \<Longrightarrow> m \<in> set ms \<Longrightarrow>
   find (\<lambda>x. om_organization_id x = om_organization_id m \<and> om_user_id x = om_user_id m) ms = Some m"
proof (induction ms)
  case Nil
  then show ?case by simp
next
  case (Cons a ms)
  show ?case
  proof (cases "a = m")
    case True
    then show ?thesis by simp
  next
    case False
    with Cons.prems have in_ms: "m \<in> set ms" and d: "distinct (map member_key ms)"
      and fresh: "member_key a \<notin> member_key ` set ms" by auto
    from in_ms fresh have "member_key a \<noteq> member_key m" by force
    then have "\<not> (om_organization_id a = om_organization_id m \<and> om_user_id a = om_user_id m)"
      by (auto simp: member_key_def)
    with Cons.IH [OF d in_ms] show ?thesis by auto
  qed
qed

section \<open>The procedures on the example databases\<close>

lemma schema_ok_example_db: "schema_ok example_db"
  by (simp add: schema_ok_def example_db_def user_ids_def organization_ids_def member_key_def)


lemma create_acme:
  "create_organization_and_assign_admin ann 10 20 ''Acme'' (Some ''desc'') users_only_db
   = Inr (10, acme_db)"
  by (simp add: create_organization_and_assign_admin_def insert_organizations_def
        insert_organization_members_def users_only_db_def ann_def acme_db_def user_ids_def
        organization_ids_def member_key_def)

lemma member_20_example:
  "member_by_id example_db 20 =
     Some \<lparr>om_id = 20, om_created_at = 0, om_user_id = 1, om_organization_id = 10, om_role = admin\<rparr>"
  by (simp add: member_by_id_def example_db_def)

lemma member_99_example: "member_by_id example_db 99 = None"
  by (simp add: member_by_id_def example_db_def)

lemma pending_30_example: "pending_invitation example_db 30 = Some eve_invitation"
  by (simp add: pending_invitation_def example_db_def eve_invitation_def)

lemma eve_email_example: "auth_email example_db (Some 3) = Some (inv_invitee_email eve_invitation)"
  by (simp add: auth_email_def example_db_def eve_invitation_def)

lemma bob_email_example: "auth_email example_db (auth_uid bob) = Some ''bob@acme.io''"
  by (simp add: auth_email_def example_db_def bob_def)

lemma accept_joined:
  "accept_invitation eve 22 30 example_db = Inr ((), joined_db)"
  by (simp add: accept_invitation_def pending_invitation_def auth_email_def eve_def sql_neq_def
        upsert_organization_members_def insert_organization_members_def member_key_def
        update_invitations_status_def example_db_def joined_db_def eve_invitation_def
        user_ids_def organization_ids_def)

lemma auth_uid_examples: "auth_uid ann = Some 1" "auth_uid bob = Some 2" "auth_uid eve = Some 3"
  by (simp_all add: ann_def bob_def eve_def)

lemma rpc_create_acme:
  "rpc (create_organization_and_assign_admin ann 10 20 ''Acme'' (Some ''desc'')) users_only_db
   = (Inr 10, acme_db)"
  by (simp add: rpc_def create_acme)

lemma rpc_accept_joined:
  "rpc (accept_invitation eve 22 30) example_db = (Inr (), joined_db)"
  by (simp add: rpc_def accept_joined)

lemma admin_count_examples:
  "admin_count example_db 10 = 1" "admin_count no_admin_db 10 = 0"
  "admin_count acme_db 10 = 1" "admin_count demoted_db 10 = 0"
  by (simp_all add: admin_count_def example_db_def no_admin_db_def acme_db_def demoted_db_def)

lemma eve_invitation_fields:
  "inv_id eve_invitation = 30" "inv_organization_id eve_invitation = 10"
  "inv_role eve_invitation = viewer" "inv_invitee_email eve_invitation = ''eve@else.io''"
  by (simp_all add: eve_invitation_def)

lemma fresh_22_example: "22 \<notin> set (map om_id (organization_members example_db))"
  by (simp add: example_db_def)

lemma no_pending_99_example:
  "\<not> (\<exists>i \<in> set (invitations example_db). inv_id i = 99 \<and> inv_status i = pending)"
  by (simp add: example_db_def)


lemma variable_conflict_examples:
  "variable_conflict ann = conflict_error" "variable_conflict bob = conflict_error"
  "variable_conflict eve = conflict_error"
  "variable_conflict ann_use_variable = use_variable"
  "variable_conflict bob_use_variable = use_variable"
  by (simp_all add: ann_def bob_def eve_def ann_use_variable_def bob_use_variable_def)

lemma auth_uid_use_variable:
  "auth_uid ann_use_variable = Some 1" "auth_uid bob_use_variable = Some 2"
  by (simp_all add: ann_def bob_def ann_use_variable_def bob_use_variable_def)

lemma invite_conflict_error:
  "variable_conflict s = conflict_error \<Longrightarrow>
   invite_organization_member s gen_inv org_id invitee_email invitee_role db =
     Inl (Ambiguous_column ''user_id'')"
  by (simp add: invite_organization_member_def)

lemma update_conflict_error:
  "variable_conflict s = conflict_error \<Longrightarrow>
   update_organization_member_role s member_id new_role db = Inl (Ambiguous_column ''user_id'')"
  by (simp add: update_organization_member_role_def)

lemma remove_conflict_error:
  "variable_conflict s = conflict_error \<Longrightarrow>
   remove_organization_member s member_id db = Inl (Ambiguous_column ''user_id'')"
  by (simp add: remove_organization_member_def)

lemma is_org_member_NULL_org:
  "vc \<noteq> conflict_error \<Longrightarrow> is_org_member vc db None user_id (Some admin) = Inr False"
proof -
  have "find (\<lambda>m. False) ms = None" for ms :: "organization_member list"
    by (induction ms) simp_all
  then show "vc \<noteq> conflict_error \<Longrightarrow> is_org_member vc db None user_id (Some admin) = Inr False"
    by (simp add: is_org_member_def coalesce_def)
qed

lemma is_org_member_no_admin_row:
  assumes "\<not> (\<exists>r \<in> set (organization_members db).
               Some (om_organization_id r) = org_id \<and> Some (om_user_id r) = user_id \<and>
               om_role r = admin)"
  shows "is_org_member use_variable db org_id user_id (Some admin) = Inr False"
proof (cases "find (\<lambda>m. Some (om_organization_id m) = org_id \<and> Some (om_user_id m) = user_id)
                (organization_members db)")
  case None
  then show ?thesis by (simp add: is_org_member_def coalesce_def)
next
  case (Some m)
  then have "m \<in> set (organization_members db)"
    "Some (om_organization_id m) = org_id \<and> Some (om_user_id m) = user_id"
    by (auto simp: find_Some_iff in_set_conv_nth)
  with assms have "om_role m \<noteq> admin" by blast
  then have "role_level (Some (om_role m)) < 3" by (cases "om_role m") simp_all
  with Some show ?thesis by (simp add: is_org_member_def coalesce_def)
qed

lemma is_org_member_use_variable_iff:
  assumes "schema_ok db"
  shows "is_org_member use_variable db (Some org) (Some user) (Some min_role) =
         Inr (\<exists>m \<in> set (organization_members db).
                om_organization_id m = org \<and> om_user_id m = user \<and>
                role_level (Some (om_role m)) \<ge> role_level (Some min_role))"
proof -
  from assms have d: "distinct (map member_key (organization_members db))"
    by (simp add: schema_ok_def)
  let ?P = "\<lambda>x. om_organization_id x = org \<and> om_user_id x = user"
  have pos: "0 < role_level (Some min_role)" by (cases min_role) simp_all
  show ?thesis
  proof (cases "find ?P (organization_members db)")
    case None
    then have "\<forall>m \<in> set (organization_members db). \<not> ?P m" by (simp add: find_None_iff)
    with None pos show ?thesis
      by (auto simp: is_org_member_def coalesce_def)
  next
    case (Some m)
    then have m: "m \<in> set (organization_members db)" "?P m"
      by (auto simp: find_Some_iff in_set_conv_nth)
    have uniq: "m' = m" if "m' \<in> set (organization_members db)" "?P m'" for m'
    proof -
      from find_member_unique [OF d that(1)] that(2) have "find ?P (organization_members db) = Some m'"
        by simp
      with Some show ?thesis by simp
    qed
    have lhs: "is_org_member use_variable db (Some org) (Some user) (Some min_role) =
               Inr (role_level (Some min_role) \<le> role_level (Some (om_role m)))"
      using Some by (simp add: is_org_member_def coalesce_def)
    have rhs: "(\<exists>m \<in> set (organization_members db).
             om_organization_id m = org \<and> om_user_id m = user \<and>
             role_level (Some (om_role m)) \<ge> role_level (Some min_role)) \<longleftrightarrow>
               role_level (Some min_role) \<le> role_level (Some (om_role m))"
      using m uniq by blast
    from lhs rhs show ?thesis by simp
  qed
qed





lemma rpc_remove_default:
  "rpc (remove_organization_member ann 20) demo = (Inl (Ambiguous_column ''user_id''), demo)"
  by (simp add: rpc_def remove_conflict_error variable_conflict_examples)

lemma ann_admin_use_variable:
  "is_org_member (variable_conflict ann_use_variable) example_db (Some 10)
     (auth_uid ann_use_variable) (Some admin) = Inr True"
  "is_org_member (variable_conflict ann_use_variable) acme_db (Some 10)
     (auth_uid ann_use_variable) (Some admin) = Inr True"
  by (simp_all add: is_org_member_def coalesce_def example_db_def acme_db_def
        ann_use_variable_def ann_def)

lemma bob_not_admin_use_variable:
  "is_org_member (variable_conflict bob_use_variable) example_db (Some 10)
     (auth_uid bob_use_variable) (Some admin) = Inr False"
  by (simp add: is_org_member_def coalesce_def example_db_def bob_use_variable_def bob_def)

lemma member_20_acme:
  "member_by_id acme_db 20 =
     Some \<lparr>om_id = 20, om_created_at = 5, om_user_id = 1, om_organization_id = 10, om_role = admin\<rparr>"
  by (simp add: member_by_id_def acme_db_def)

lemma rpc_remove_use_variable:
  "rpc (remove_organization_member ann_use_variable 20) example_db = (Inr (), no_admin_db)"
  by (simp add: rpc_def remove_organization_member_def member_20_example
        ann_admin_use_variable)
     (simp add: example_db_def no_admin_db_def)

lemma rpc_update_use_variable:
  "rpc (update_organization_member_role ann_use_variable 20 viewer) acme_db = (Inr (), demoted_db)"
  by (simp add: rpc_def update_organization_member_role_def member_20_acme
        ann_admin_use_variable)
     (simp add: acme_db_def demoted_db_def)

lemma rpc_invite_use_variable:
  "rpc (invite_organization_member ann_use_variable 31 10 ''new@else.io'' editor) example_db =
     (Inr (),
      example_db\<lparr>invitations := invitations example_db @
         [\<lparr>inv_id = 31, inv_created_at = 5, inv_updated_at = 5, inv_organization_id = 10,
           inv_invited_by = 1, inv_invitee_email = ''new@else.io'', inv_role = editor,
           inv_status = pending\<rparr>]\<rparr>)"
  "rpc (invite_organization_member bob_use_variable 31 10 ''new@else.io'' editor) example_db =
     (Inl Only_admins_can_invite_new_members, example_db)"
  by (simp_all add: rpc_def invite_organization_member_def
        ann_admin_use_variable bob_not_admin_use_variable)
     (simp add: insert_invitations_def example_db_def ann_use_variable_def ann_def
        user_ids_def organization_ids_def)

section \<open>The admins of an organization over sequences of calls\<close>

lemma create_organization_and_assign_admin_inserts:
  "(case rpc (create_organization_and_assign_admin s gen_org gen_member org_name org_description) db of
      (Inl e, db') \<Rightarrow> db' = db
    | (Inr new_org_id, db') \<Rightarrow>
        new_org_id = gen_org \<and>
        (\<exists>u. auth_uid s = Some u \<and>
           db' = db\<lparr>organizations := organizations db @
                    [\<lparr>o_id = new_org_id, o_created_at = now s, o_updated_at = now s,
                      o_name = org_name, o_description = org_description, o_created_by = Some u\<rparr>],
                  organization_members := organization_members db @
                    [\<lparr>om_id = gen_member, om_created_at = now s, om_user_id = u,
                      om_organization_id = new_org_id, om_role = admin\<rparr>]\<rparr>))"
proof (cases "create_organization_and_assign_admin s gen_org gen_member org_name org_description db")
  case (Inl e)
  then show ?thesis by (simp add: rpc_def)
next
  case (Inr res)
  obtain r db' where res: "res = (r, db')" by (cases res)
  from Inr res have run: "create_organization_and_assign_admin s gen_org gen_member org_name
                            org_description db = Inr (r, db')" by simp
  from run show ?thesis
  proof (rule create_organization_and_assign_admin_InrE)
    fix u db1
    let ?m = "\<lparr>om_id = gen_member, om_created_at = now s, om_user_id = u,
               om_organization_id = gen_org, om_role = admin\<rparr>"
    assume u: "auth_uid s = Some u" and r: "r = gen_org"
      and i1: "insert_organizations
         \<lparr>o_id = gen_org, o_created_at = now s, o_updated_at = now s, o_name = org_name,
          o_description = org_description, o_created_by = Some u\<rparr> db = Inr db1"
      and i2: "insert_organization_members ?m db1 = Inr db'"
    from i1 have db1: "db1 = db\<lparr>organizations := organizations db @
         [\<lparr>o_id = gen_org, o_created_at = now s, o_updated_at = now s, o_name = org_name,
           o_description = org_description, o_created_by = Some u\<rparr>]\<rparr>"
      by (auto simp: insert_organizations_def split: if_splits)
    from i2 have db': "db' = db1\<lparr>organization_members := organization_members db1 @ [?m]\<rparr>"
      by (auto simp: insert_organization_members_def split: if_splits)
    from u r show ?thesis
      by (simp add: rpc_def run db' db1)
  qed
qed

lemma create_organization_and_assign_admin_returns:
  assumes "schema_ok db" "auth_uid s = Some creator" "creator \<in> set (user_ids db)"
    "gen_org \<notin> set (organization_ids db)" "gen_member \<notin> set (map om_id (organization_members db))"
  shows "fst (rpc (create_organization_and_assign_admin s gen_org gen_member org_name org_description) db)
          = Inr gen_org"
proof -
  from assms(1) have fk: "list_all (\<lambda>m. om_user_id m \<in> set (user_ids db) \<and>
                    om_organization_id m \<in> set (organization_ids db)) (organization_members db)"
    by (simp add: schema_ok_def)
  have "\<forall>m \<in> set (organization_members db). om_organization_id m \<noteq> gen_org"
  proof
    fix m assume "m \<in> set (organization_members db)"
    with fk have "om_organization_id m \<in> set (organization_ids db)" by (simp add: list_all_iff)
    with assms(4) show "om_organization_id m \<noteq> gen_org" by auto
  qed
  then have nokey: "(creator, gen_org) \<notin> member_key ` set (organization_members db)"
    by (auto simp: member_key_def)
  from assms nokey show ?thesis
    by (simp add: rpc_def create_organization_and_assign_admin_def insert_organizations_def
          insert_organization_members_def member_key_def organization_ids_def)
qed







section \<open>Removing a member\<close>

text \<open>
  The earlier revision refuses the sole admin's removal of the own membership with its
  last-admin exception. Its role check lets a caller without any membership through, and
  such a caller removes the sole admin.
\<close>

lemma remove_part_003_self:
  "rpc (remove_organization_member_part_003 ann 20) example_db =
     (Inl You_cannot_remove_yourself_as_you_are_the_last_admin, example_db)"
  by (simp add: rpc_def remove_organization_member_part_003_def member_20_example ann_def sql_neq_def)
     (simp add: example_db_def)

lemma remove_part_003_outsider:
  "rpc (remove_organization_member_part_003 eve 20) example_db = (Inr (), no_admin_db)"
  by (simp add: rpc_def remove_organization_member_part_003_def member_20_example eve_def sql_neq_def)
     (simp add: example_db_def no_admin_db_def)

text \<open>
  C1. The claim: removing the membership of the sole remaining admin of an organization
  fails with \<open>LastAdminError\<close> and leaves the membership rows as they were. In
  \<open>example_db\<close> the organization 10 has one admin, user 1 with the membership 20. Called
  by user 1 on the membership 20 under the default setting, \<open>remove_organization_member\<close>
  of the final migration aborts inside \<open>is_org_member\<close> with the ambiguity error, which
  is not a \<open>LastAdminError\<close>; the rows are as they were. With the name read as the
  parameter the call returns, deletes the row and leaves the organization without an
  admin: the procedure has no last-admin check.
\<close>

theorem remove_organization_member_sole_admin:
  "member_by_id example_db 20 =
     Some \<lparr>om_id = 20, om_created_at = 0, om_user_id = 1, om_organization_id = 10, om_role = admin\<rparr> \<and>
   auth_uid ann = Some 1 \<and> variable_conflict ann = conflict_error \<and>
   admin_count example_db 10 = 1 \<and>
   rpc (remove_organization_member ann 20) example_db =
     (Inl (Ambiguous_column ''user_id''), example_db) \<and>
   \<not> fails_with (fst (rpc (remove_organization_member ann 20) example_db)) LastAdminError \<and>
   rpc (remove_organization_member ann_use_variable 20) example_db = (Inr (), no_admin_db) \<and>
   admin_count no_admin_db 10 = 0"
  by (simp add: member_20_example admin_count_examples rpc_remove_default
        rpc_remove_use_variable fails_with_def auth_uid_examples variable_conflict_examples)

section \<open>Changing a role\<close>

text \<open>
  C9, as amended. When the caller has no admin membership in the organization of the
  membership (under the default setting and under \<^verbatim>\<open>use_variable\<close>),
  \<open>update_organization_member_role\<close> aborts and the database is as it was. When no
  membership has the id it aborts too, under every setting, in the same admin check and
  with the same error as for such a caller: the ambiguity error under the default setting,
  "Only admins can change roles." otherwise, and never a \<open>NotFound\<close>.
\<close>

theorem update_organization_member_role_refuses:
  "(variable_conflict s \<noteq> use_column \<and> member_by_id db member_id = Some member \<and>
    \<not> (\<exists>r \<in> set (organization_members db).
          om_organization_id r = om_organization_id member \<and>
          Some (om_user_id r) = auth_uid s \<and> om_role r = admin)
    \<longrightarrow> rpc (update_organization_member_role s member_id new_role) db =
          (Inl (if variable_conflict s = conflict_error then Ambiguous_column ''user_id''
                else Only_admins_can_change_roles), db)) \<and>
   (member_by_id db member_id = None
    \<longrightarrow> rpc (update_organization_member_role s member_id new_role) db =
          (Inl (if variable_conflict s = conflict_error then Ambiguous_column ''user_id''
                else Only_admins_can_change_roles), db)) \<and>
   kind_of (if variable_conflict s = conflict_error then Ambiguous_column ''user_id''
            else Only_admins_can_change_roles) \<noteq> NotFound"
proof (intro conjI impI)
  assume h: "variable_conflict s \<noteq> use_column \<and> member_by_id db member_id = Some member \<and>
    \<not> (\<exists>r \<in> set (organization_members db).
          om_organization_id r = om_organization_id member \<and>
          Some (om_user_id r) = auth_uid s \<and> om_role r = admin)"
  show "rpc (update_organization_member_role s member_id new_role) db =
          (Inl (if variable_conflict s = conflict_error then Ambiguous_column ''user_id''
                else Only_admins_can_change_roles), db)"
  proof (cases "variable_conflict s")
    case conflict_error
    then show ?thesis by (simp add: rpc_def update_conflict_error)
  next
    case use_variable
    from h have "\<not> (\<exists>r \<in> set (organization_members db).
               Some (om_organization_id r) = Some (om_organization_id member) \<and>
               Some (om_user_id r) = auth_uid s \<and> om_role r = admin)" by simp
    from is_org_member_no_admin_row [OF this] h use_variable show ?thesis
      by (simp add: rpc_def update_organization_member_role_def)
  next
    case use_column
    with h show ?thesis by simp
  qed
next
  assume none: "member_by_id db member_id = None"
  show "rpc (update_organization_member_role s member_id new_role) db =
          (Inl (if variable_conflict s = conflict_error then Ambiguous_column ''user_id''
                else Only_admins_can_change_roles), db)"
  proof (cases "variable_conflict s = conflict_error")
    case True
    then show ?thesis by (simp add: rpc_def update_conflict_error)
  next
    case False
    from is_org_member_NULL_org [OF False, of db "auth_uid s"] none False show ?thesis
      by (simp add: rpc_def update_organization_member_role_def)
  qed
next
  show "kind_of (if variable_conflict s = conflict_error then Ambiguous_column ''user_id''
            else Only_admins_can_change_roles) \<noteq> NotFound"
    by simp
qed

lemma bob_no_admin_row:
  "\<not> (\<exists>r \<in> set (organization_members example_db).
          om_organization_id r = 10 \<and> Some (om_user_id r) = Some 2 \<and> om_role r = admin)"
  by (simp add: example_db_def)

theorem update_organization_member_role_refuses_witness:
  "variable_conflict bob \<noteq> use_column \<and>
   member_by_id example_db 20 =
     Some \<lparr>om_id = 20, om_created_at = 0, om_user_id = 1, om_organization_id = 10, om_role = admin\<rparr> \<and>
   \<not> (\<exists>r \<in> set (organization_members example_db).
          om_organization_id r = 10 \<and> Some (om_user_id r) = Some 2 \<and> om_role r = admin) \<and>
   rpc (update_organization_member_role bob 20 viewer) example_db =
     (Inl (Ambiguous_column ''user_id''), example_db) \<and>
   rpc (update_organization_member_role bob_use_variable 20 viewer) example_db =
     (Inl Only_admins_can_change_roles, example_db) \<and>
   member_by_id example_db 99 = None \<and>
   rpc (update_organization_member_role ann 99 viewer) example_db =
     (Inl (Ambiguous_column ''user_id''), example_db) \<and>
   rpc (update_organization_member_role ann_use_variable 99 viewer) example_db =
     (Inl Only_admins_can_change_roles, example_db)"
proof -
  let ?m = "\<lparr>om_id = 20, om_created_at = 0, om_user_id = 1, om_organization_id = 10, om_role = admin\<rparr>"
  have vb: "variable_conflict bob \<noteq> use_column" "variable_conflict bob_use_variable \<noteq> use_column"
    by (simp_all add: variable_conflict_examples)
  from update_organization_member_role_refuses
         [where s = bob and db = example_db and member_id = 20 and member = ?m and new_role = viewer]
    vb(1) member_20_example bob_no_admin_row
  have a: "rpc (update_organization_member_role bob 20 viewer) example_db =
     (Inl (Ambiguous_column ''user_id''), example_db)"
    by (simp add: auth_uid_examples variable_conflict_examples)
  from update_organization_member_role_refuses
         [where s = bob_use_variable and db = example_db and member_id = 20 and member = ?m
            and new_role = viewer]
    vb(2) member_20_example bob_no_admin_row
  have b: "rpc (update_organization_member_role bob_use_variable 20 viewer) example_db =
     (Inl Only_admins_can_change_roles, example_db)"
    by (simp add: auth_uid_use_variable variable_conflict_examples)
  from update_organization_member_role_refuses
         [where s = ann and db = example_db and member_id = 99 and new_role = viewer]
    member_99_example
  have c: "rpc (update_organization_member_role ann 99 viewer) example_db =
     (Inl (Ambiguous_column ''user_id''), example_db)"
    by (simp add: variable_conflict_examples)
  from update_organization_member_role_refuses
         [where s = ann_use_variable and db = example_db and member_id = 99 and new_role = viewer]
    member_99_example
  have d: "rpc (update_organization_member_role ann_use_variable 99 viewer) example_db =
     (Inl Only_admins_can_change_roles, example_db)"
    by (simp add: variable_conflict_examples)
  from vb(1) member_20_example bob_no_admin_row a b member_99_example c d
  show ?thesis by (intro conjI)
qed

text \<open>
  The claim C9 as stated fails: no membership of \<open>example_db\<close> has the id 99, and the
  call on that id aborts in the admin check, under the default setting and with the name
  read as the parameter, with an error that is not a \<open>NotFound\<close>.
\<close>

theorem update_absent_member_not_NotFound:
  "member_by_id example_db 99 = None \<and>
   rpc (update_organization_member_role ann 99 viewer) example_db =
     (Inl (Ambiguous_column ''user_id''), example_db) \<and>
   \<not> fails_with (fst (rpc (update_organization_member_role ann 99 viewer) example_db)) NotFound \<and>
   rpc (update_organization_member_role ann_use_variable 99 viewer) example_db =
     (Inl Only_admins_can_change_roles, example_db) \<and>
   \<not> fails_with (fst (rpc (update_organization_member_role ann_use_variable 99 viewer) example_db))
       NotFound"
proof -
  have a: "rpc (update_organization_member_role ann 99 viewer) example_db =
     (Inl (Ambiguous_column ''user_id''), example_db)"
    by (simp add: rpc_def update_conflict_error variable_conflict_examples)
  have b: "rpc (update_organization_member_role ann_use_variable 99 viewer) example_db =
     (Inl Only_admins_can_change_roles, example_db)"
    using is_org_member_NULL_org [of use_variable example_db "auth_uid ann_use_variable"]
    by (simp add: rpc_def update_organization_member_role_def member_99_example
          variable_conflict_examples)
  show ?thesis
    by (simp add: member_99_example a b fails_with_def)
qed

section \<open>Creating an organization\<close>

text \<open>
  C3. The claim: the creation inserts the organization and the creator's admin membership
  together or not at all, returns the new organization's id, and \<open>is_org_member\<close> for
  the new organization, the creator and the admin role then returns true. User 1 creates
  the organization 10 in \<open>users_only_db\<close>: the call returns 10 and both rows are there,
  and the call of \<open>is_org_member\<close> that follows aborts with the ambiguity error instead
  of returning true.
\<close>

theorem create_then_is_org_member_aborts:
  "rpc (create_organization_and_assign_admin ann 10 20 ''Acme'' (Some ''desc'')) users_only_db
     = (Inr 10, acme_db) \<and>
   organization_members acme_db =
     [\<lparr>om_id = 20, om_created_at = 5, om_user_id = 1, om_organization_id = 10, om_role = admin\<rparr>] \<and>
   auth_uid ann = Some 1 \<and> variable_conflict ann = conflict_error \<and>
   is_org_member (variable_conflict ann) acme_db (Some 10) (auth_uid ann) (Some admin) =
     Inl (Ambiguous_column ''user_id'') \<and>
   is_org_member (variable_conflict ann) acme_db (Some 10) (auth_uid ann) (Some admin) \<noteq> Inr True"
proof -
  have "organization_members acme_db =
     [\<lparr>om_id = 20, om_created_at = 5, om_user_id = 1, om_organization_id = 10, om_role = admin\<rparr>]"
    by (simp add: acme_db_def)
  then show ?thesis
    by (simp add: rpc_create_acme auth_uid_examples variable_conflict_examples)
qed

section \<open>Invitations\<close>

text \<open>
  C7. The claim: \<open>invite_organization_member\<close> inserts a pending invitation when the
  caller is an admin of the organization and fails with \<open>Forbidden\<close> otherwise. In
  \<open>example_db\<close> user 1 is an admin of the organization 10 and user 2 is not; under the
  default setting both calls abort inside \<open>is_org_member\<close> with the ambiguity error:
  the admin's call inserts nothing and the other call's failure is not a \<open>Forbidden\<close>.
\<close>

theorem invite_organization_member_aborts:
  "variable_conflict ann = conflict_error \<and> variable_conflict bob = conflict_error \<and>
   (\<exists>m \<in> set (organization_members example_db).
      om_organization_id m = 10 \<and> Some (om_user_id m) = auth_uid ann \<and> om_role m = admin) \<and>
   rpc (invite_organization_member ann 31 10 ''new@else.io'' editor) example_db =
     (Inl (Ambiguous_column ''user_id''), example_db) \<and>
   \<not> (\<exists>m \<in> set (organization_members example_db).
         om_organization_id m = 10 \<and> Some (om_user_id m) = auth_uid bob \<and> om_role m = admin) \<and>
   rpc (invite_organization_member bob 31 10 ''new@else.io'' editor) example_db =
     (Inl (Ambiguous_column ''user_id''), example_db) \<and>
   \<not> fails_with (fst (rpc (invite_organization_member bob 31 10 ''new@else.io'' editor) example_db))
       Forbidden"
proof -
  have rows: "\<exists>m \<in> set (organization_members example_db).
      om_organization_id m = 10 \<and> Some (om_user_id m) = auth_uid ann \<and> om_role m = admin"
    "\<not> (\<exists>m \<in> set (organization_members example_db).
         om_organization_id m = 10 \<and> Some (om_user_id m) = auth_uid bob \<and> om_role m = admin)"
    by (simp_all add: example_db_def ann_def bob_def)
  have a: "rpc (invite_organization_member s 31 10 ''new@else.io'' editor) example_db =
     (Inl (Ambiguous_column ''user_id''), example_db)" if "variable_conflict s = conflict_error" for s
    using that by (simp add: rpc_def invite_conflict_error)
  have f: "\<not> fails_with (fst (rpc (invite_organization_member bob 31 10 ''new@else.io'' editor) example_db))
       Forbidden"
    by (simp add: a variable_conflict_examples fails_with_def)
  from variable_conflict_examples(1,2) rows a [OF variable_conflict_examples(1)]
    a [OF variable_conflict_examples(2)] f
  show ?thesis by (intro conjI)
qed

section \<open>The authorization predicate on the example database\<close>

text \<open>
  C8. The claim: \<open>is_org_member\<close> returns true exactly when the principal has a
  membership in the organization whose role level is at least the level of the minimum
  role. In \<open>example_db\<close> user 1 has an admin membership in the organization 10; under
  the default setting the call for the admin level aborts with the ambiguity error and
  returns nothing. With the name read as the parameter it returns true.
\<close>

theorem is_org_member_aborts:
  "(\<exists>m \<in> set (organization_members example_db).
      om_organization_id m = 10 \<and> om_user_id m = 1 \<and>
      role_level (Some (om_role m)) \<ge> role_level (Some admin)) \<and>
   is_org_member conflict_error example_db (Some 10) (Some 1) (Some admin) =
     Inl (Ambiguous_column ''user_id'') \<and>
   is_org_member conflict_error example_db (Some 10) (Some 1) (Some admin) \<noteq> Inr True \<and>
   is_org_member use_variable example_db (Some 10) (Some 1) (Some admin) = Inr True"
proof -
  have "\<exists>m \<in> set (organization_members example_db).
      om_organization_id m = 10 \<and> om_user_id m = 1 \<and>
      role_level (Some (om_role m)) \<ge> role_level (Some admin)"
    by (simp add: example_db_def)
  moreover have "is_org_member use_variable example_db (Some 10) (Some 1) (Some admin) = Inr True"
    by (simp add: is_org_member_def coalesce_def example_db_def)
  ultimately show ?thesis by simp
qed

text \<open>
  C10. The claim: \<open>is_org_member\<close> never raises and returns false for a principal
  without a membership row. In \<open>example_db\<close> user 3 has no membership in an
  organization 77; under the default setting the call raises the ambiguity error. With
  the name read as the parameter it returns false.
\<close>

theorem is_org_member_raises:
  "\<not> (\<exists>m \<in> set (organization_members example_db).
        om_organization_id m = 77 \<and> om_user_id m = 3) \<and>
   is_org_member conflict_error example_db (Some 77) (Some 3) (Some viewer) =
     Inl (Ambiguous_column ''user_id'') \<and>
   is_org_member conflict_error example_db (Some 77) (Some 3) (Some viewer) \<noteq> Inr False \<and>
   is_org_member use_variable example_db (Some 77) (Some 3) (Some viewer) = Inr False"
proof -
  have none: "\<not> (\<exists>m \<in> set (organization_members example_db).
        om_organization_id m = 77 \<and> om_user_id m = 3)"
    by (simp add: example_db_def)
  have "is_org_member use_variable example_db (Some 77) (Some 3) (Some viewer) = Inr False"
    by (simp add: is_org_member_def coalesce_def example_db_def)
  with none show ?thesis by simp
qed

section \<open>Accepting and declining an invitation\<close>

text \<open>
  C4. For a pending invitation and a caller whose email in \<^verbatim>\<open>auth.users\<close> equals the
  invitee email, with the schema constraints in force and a new generated id,
  \<open>accept_invitation\<close> returns; afterwards the caller has exactly one membership row in
  the invitation's organization, it carries the invited role, no row was added if the
  caller had one before, every other membership row is as it was, and the invitation is
  accepted, every other invitation being as it was.
\<close>

theorem accept_invitation_upserts:
  assumes "schema_ok db"
    and "pending_invitation db invitation_id = Some invite"
    and "auth_uid s = Some u"
    and "auth_email db (Some u) = Some (inv_invitee_email invite)"
    and "gen_member \<notin> set (map om_id (organization_members db))"
  shows "\<exists>db'. rpc (accept_invitation s gen_member invitation_id) db = (Inr (), db') \<and>
           map om_role (filter (\<lambda>m. member_key m = (u, inv_organization_id invite))
                               (organization_members db')) = [inv_role invite] \<and>
           filter (\<lambda>m. member_key m \<noteq> (u, inv_organization_id invite)) (organization_members db') =
             filter (\<lambda>m. member_key m \<noteq> (u, inv_organization_id invite)) (organization_members db) \<and>
           length (organization_members db') =
             length (organization_members db) +
             (if (u, inv_organization_id invite) \<in> set (map member_key (organization_members db))
              then 0 else 1) \<and>
           map inv_status (filter (\<lambda>i. inv_id i = invitation_id) (invitations db')) = [accepted] \<and>
           filter (\<lambda>i. inv_id i \<noteq> invitation_id) (invitations db') =
             filter (\<lambda>i. inv_id i \<noteq> invitation_id) (invitations db) \<and>
           organizations db' = organizations db \<and> auth_users db' = auth_users db"
proof -
  let ?row = "\<lparr>om_id = gen_member, om_created_at = now s, om_user_id = u,
               om_organization_id = inv_organization_id invite, om_role = inv_role invite\<rparr>"
  note inv = pending_invitation_SomeD [OF assms(2)]
  from assms(1) inv(1) have org: "inv_organization_id invite \<in> set (organization_ids db)"
    by (simp add: schema_ok_def list_all_iff)
  from assms(4) have usr: "u \<in> set (user_ids db)" by (rule auth_email_SomeD)
  from upsert_succeeds [of ?row db] assms(5) org usr
  obtain db1 where up: "upsert_organization_members ?row db = Inr db1" by auto
  let ?db' = "update_invitations_status invitation_id accepted (now s) db1"
  have key: "member_key ?row = (u, inv_organization_id invite)" by (simp add: member_key_def)
  note row = upsert_single_row [OF assms(1) up, unfolded key]
  have res: "accept_invitation s gen_member invitation_id db = Inr ((), ?db')"
    using assms(2,3,4) up by (simp add: accept_invitation_def sql_neq_def)
  have ms: "organization_members ?db' = organization_members db1"
    and os: "organizations ?db' = organizations db1" and us: "auth_users ?db' = auth_users db1"
    by (simp_all add: update_invitations_status_def)
  from assms(1) have d: "distinct (map inv_id (invitations db))" by (simp add: schema_ok_def)
  have is': "invitations ?db' =
       map (\<lambda>i. if inv_id i = invitation_id then i\<lparr>inv_status := accepted, inv_updated_at := now s\<rparr> else i)
           (invitations db)"
    by (simp add: update_invitations_status_def row(6))
  have "filter (\<lambda>i. inv_id i = inv_id invite)
          (map (\<lambda>i. if inv_id i = inv_id invite
                    then i\<lparr>inv_status := accepted, inv_updated_at := now s\<rparr> else i)
               (invitations db)) = [invite\<lparr>inv_status := accepted, inv_updated_at := now s\<rparr>]"
    by (rule filter_key_update [OF d inv(1)]) simp
  then have st: "map inv_status (filter (\<lambda>i. inv_id i = invitation_id) (invitations ?db')) = [accepted]"
    unfolding is' by (simp add: inv(2))
  have others: "filter (\<lambda>i. inv_id i \<noteq> invitation_id) (invitations ?db') =
             filter (\<lambda>i. inv_id i \<noteq> invitation_id) (invitations db)"
    unfolding is' by (rule filter_other_update) simp
  have "rpc (accept_invitation s gen_member invitation_id) db = (Inr (), ?db')"
    by (simp add: rpc_def res)
  with row st others show ?thesis
    by (simp add: ms os us)
qed

theorem accept_invitation_upserts_witness:
  "schema_ok example_db \<and>
   pending_invitation example_db 30 = Some eve_invitation \<and>
   auth_uid eve = Some 3 \<and>
   auth_email example_db (Some 3) = Some (inv_invitee_email eve_invitation) \<and>
   22 \<notin> set (map om_id (organization_members example_db)) \<and>
   rpc (accept_invitation eve 22 30) example_db = (Inr (), joined_db) \<and>
   map om_role (filter (\<lambda>m. member_key m = (3, 10)) (organization_members joined_db)) = [viewer] \<and>
   length (organization_members joined_db) = length (organization_members example_db) + 1 \<and>
   map inv_status (filter (\<lambda>i. inv_id i = 30) (invitations joined_db)) = [accepted]"
proof -
  note inst = accept_invitation_upserts
         [OF schema_ok_example_db pending_30_example auth_uid_examples(3) eve_email_example
             fresh_22_example]
  from inst have role: "map om_role (filter (\<lambda>m. member_key m = (3, inv_organization_id eve_invitation))
                               (organization_members joined_db)) = [inv_role eve_invitation]"
    unfolding rpc_accept_joined by (elim exE conjE) simp
  from inst have len: "length (organization_members joined_db) =
             length (organization_members example_db) +
             (if (3, inv_organization_id eve_invitation) \<in> set (map member_key (organization_members example_db))
              then 0 else 1)"
    unfolding rpc_accept_joined by (elim exE conjE) simp
  from inst have st: "map inv_status (filter (\<lambda>i. inv_id i = 30) (invitations joined_db)) = [accepted]"
    unfolding rpc_accept_joined by (elim exE conjE) simp
  have nokey: "(3, 10) \<notin> set (map member_key (organization_members example_db))"
    by (simp add: example_db_def member_key_def)
  from role have r: "map om_role (filter (\<lambda>m. member_key m = (3, 10)) (organization_members joined_db)) = [viewer]"
    by (simp add: eve_invitation_fields)
  from len nokey have l: "length (organization_members joined_db) = length (organization_members example_db) + 1"
    by (simp add: eve_invitation_fields)
  from schema_ok_example_db pending_30_example auth_uid_examples(3) eve_email_example
    fresh_22_example rpc_accept_joined r l st
  show ?thesis by (intro conjI)
qed

text \<open>
  C5. When no row of \<^verbatim>\<open>invitations\<close> has the id in the pending state,
  \<open>accept_invitation\<close> and \<open>decline_invitation\<close> abort with "Invitation not found or
  already actioned." (\<open>NotFound\<close>) and the database is as it was. After a call of
  \<open>accept_invitation\<close> that returned, a second call on the same invitation, by any caller,
  aborts so, and the first caller has exactly one membership row in the invitation's
  organization.
\<close>

theorem actioned_invitation_not_found:
  "(\<not> (\<exists>i \<in> set (invitations db). inv_id i = invitation_id \<and> inv_status i = pending) \<longrightarrow>
      rpc (accept_invitation s gen_member invitation_id) db =
        (Inl Invitation_not_found_or_already_actioned, db) \<and>
      rpc (decline_invitation s invitation_id) db =
        (Inl Invitation_not_found_or_already_actioned, db)) \<and>
   kind_of Invitation_not_found_or_already_actioned = NotFound \<and>
   (schema_ok db \<and> accept_invitation s gen_member invitation_id db = Inr ((), db') \<longrightarrow>
      rpc (accept_invitation s2 gen_member2 invitation_id) db' =
        (Inl Invitation_not_found_or_already_actioned, db') \<and>
      (\<exists>(invite::invitation) u. pending_invitation db invitation_id = Some invite \<and> auth_uid s = Some u \<and>
         length (filter (\<lambda>m. member_key m = (u, inv_organization_id invite))
                        (organization_members db')) = 1))"
proof (intro conjI impI)
  assume "\<not> (\<exists>i \<in> set (invitations db). inv_id i = invitation_id \<and> inv_status i = pending)"
  then have none: "pending_invitation db invitation_id = None"
    by (simp add: pending_invitation_def find_None_iff)
  then show "rpc (accept_invitation s gen_member invitation_id) db =
        (Inl Invitation_not_found_or_already_actioned, db)"
    by (simp add: rpc_def accept_invitation_def)
  from none show "rpc (decline_invitation s invitation_id) db =
        (Inl Invitation_not_found_or_already_actioned, db)"
    by (simp add: rpc_def decline_invitation_def)
next
  show "kind_of Invitation_not_found_or_already_actioned = NotFound" by simp
next
  assume h: "schema_ok db \<and> accept_invitation s gen_member invitation_id db = Inr ((), db')"
  then have ok: "schema_ok db" and acc: "accept_invitation s gen_member invitation_id db = Inr ((), db')"
    by simp_all
  from acc have none: "pending_invitation db' invitation_id = None"
    by (rule accept_invitation_InrE) (simp add: pending_invitation_actioned)
  then show "rpc (accept_invitation s2 gen_member2 invitation_id) db' =
        (Inl Invitation_not_found_or_already_actioned, db')"
    by (simp add: rpc_def accept_invitation_def)
  from acc show "\<exists>(invite::invitation) u. pending_invitation db invitation_id = Some invite \<and> auth_uid s = Some u \<and>
         length (filter (\<lambda>m. member_key m = (u, inv_organization_id invite))
                        (organization_members db')) = 1"
  proof (rule accept_invitation_InrE)
    fix invite :: invitation and u db1
    let ?row = "\<lparr>om_id = gen_member, om_created_at = now s, om_user_id = u,
               om_organization_id = inv_organization_id invite, om_role = inv_role invite\<rparr>"
    assume p: "pending_invitation db invitation_id = Some invite" and u: "auth_uid s = Some u"
      and up: "upsert_organization_members ?row db = Inr db1"
      and db': "db' = update_invitations_status invitation_id accepted (now s) db1"
    have key: "member_key ?row = (u, inv_organization_id invite)" by (simp add: member_key_def)
    from upsert_single_row(1) [OF ok up, unfolded key]
    have "length (map om_role (filter (\<lambda>m. member_key m = (u, inv_organization_id invite))
                        (organization_members db1))) = 1" by simp
    then have "length (filter (\<lambda>m. member_key m = (u, inv_organization_id invite))
                        (organization_members db')) = 1"
      by (simp add: db' update_invitations_status_def)
    with p u show ?thesis by blast
  qed
qed

theorem actioned_invitation_not_found_witness:
  "\<not> (\<exists>i \<in> set (invitations example_db). inv_id i = 99 \<and> inv_status i = pending) \<and>
   rpc (accept_invitation eve 22 99) example_db =
     (Inl Invitation_not_found_or_already_actioned, example_db) \<and>
   rpc (decline_invitation eve 99) example_db =
     (Inl Invitation_not_found_or_already_actioned, example_db) \<and>
   schema_ok example_db \<and>
   accept_invitation eve 22 30 example_db = Inr ((), joined_db) \<and>
   rpc (accept_invitation eve 23 30) joined_db =
     (Inl Invitation_not_found_or_already_actioned, joined_db) \<and>
   length (filter (\<lambda>m. member_key m = (3, 10)) (organization_members joined_db)) = 1"
proof -
  from actioned_invitation_not_found
         [where db = example_db and invitation_id = 99 and s = eve and gen_member = 22]
    no_pending_99_example
  have first: "rpc (accept_invitation eve 22 99) example_db =
        (Inl Invitation_not_found_or_already_actioned, example_db) \<and>
      rpc (decline_invitation eve 99) example_db =
        (Inl Invitation_not_found_or_already_actioned, example_db)"
    by blast
  from actioned_invitation_not_found
         [where db = example_db and invitation_id = 30 and s = eve and gen_member = 22
            and db' = joined_db and ?s2.0 = eve and ?gen_member2.0 = 23]
    schema_ok_example_db accept_joined
  have second: "rpc (accept_invitation eve 23 30) joined_db =
        (Inl Invitation_not_found_or_already_actioned, joined_db) \<and>
      (\<exists>(invite::invitation) u. pending_invitation example_db 30 = Some invite \<and> auth_uid eve = Some u \<and>
         length (filter (\<lambda>m. member_key m = (u, inv_organization_id invite))
                        (organization_members joined_db)) = 1)"
    by blast
  then have "length (filter (\<lambda>m. member_key m = (3, 10)) (organization_members joined_db)) = 1"
    by (auto simp: pending_30_example auth_uid_examples eve_invitation_fields)
  with first second no_pending_99_example schema_ok_example_db accept_joined
  show ?thesis by blast
qed

text \<open>
  C6. For a pending invitation and a caller whose email in \<^verbatim>\<open>auth.users\<close> differs
  from the invitee email, \<open>accept_invitation\<close> aborts with "You are not authorized to
  accept this invitation." (\<open>Forbidden\<close>); the invitation is still pending and the
  membership rows are as they were.
\<close>

theorem accept_invitation_wrong_email:
  assumes "pending_invitation db invitation_id = Some invite"
    and "auth_email db (auth_uid s) = Some e"
    and "e \<noteq> inv_invitee_email invite"
  shows "rpc (accept_invitation s gen_member invitation_id) db =
           (Inl You_are_not_authorized_to_accept_this_invitation, db) \<and>
         kind_of You_are_not_authorized_to_accept_this_invitation = Forbidden \<and>
         pending_invitation
           (snd (rpc (accept_invitation s gen_member invitation_id) db)) invitation_id = Some invite \<and>
         organization_members (snd (rpc (accept_invitation s gen_member invitation_id) db)) =
           organization_members db"
  using assms by (simp add: rpc_def accept_invitation_def sql_neq_def)

theorem accept_invitation_wrong_email_witness:
  "pending_invitation example_db 30 = Some eve_invitation \<and>
   auth_email example_db (auth_uid bob) = Some ''bob@acme.io'' \<and>
   ''bob@acme.io'' \<noteq> inv_invitee_email eve_invitation \<and>
   rpc (accept_invitation bob 22 30) example_db =
     (Inl You_are_not_authorized_to_accept_this_invitation, example_db) \<and>
   pending_invitation (snd (rpc (accept_invitation bob 22 30) example_db)) 30 = Some eve_invitation"
proof -
  have neq: "''bob@acme.io'' \<noteq> inv_invitee_email eve_invitation"
    by (simp add: eve_invitation_fields)
  from accept_invitation_wrong_email [OF pending_30_example bob_email_example neq, of 22]
    pending_30_example bob_email_example neq
  show ?thesis by blast
qed

end
